theory Spec2Isabelle
  imports Complex_Main
begin

section \<open>Data model (types.ts, as used by utils/board.ts)\<close>

text \<open>
  \<^verbatim>\<open>TileValue = number\<close> and \<^verbatim>\<open>BoardType = TileValue[][]\<close>. Tile values are the
  integers the game stores (0 for an empty cell); a JavaScript array is a list. Row and
  column numbers are array indices, hence naturals.
\<close>

type_synonym TileValue = int
type_synonym BoardType = "TileValue list list"

text \<open>
  \<^verbatim>\<open>Math.random()\<close> returns a number \<open>u\<close> with \<open>0 \<le> u < 1\<close>. The two draws that
  \<^verbatim>\<open>addRandomTile\<close> makes are inputs of the model, of a type that holds exactly this range.
\<close>

typedef rnd = "{u::real. 0 \<le> u \<and> u < 1}"
  by (rule exI [of _ 0]) simp

text \<open>
  \<^verbatim>\<open>xs[i]\<close> in JavaScript: the element, or \<^verbatim>\<open>undefined\<close> (here \<open>None\<close>) beyond the end.
\<close>

definition js_get :: "'a list \<Rightarrow> nat \<Rightarrow> 'a option" where
  "js_get xs i = (if i < length xs then Some (xs ! i) else None)"

section \<open>utils/board.ts\<close>

definition createEmptyBoard :: "nat \<Rightarrow> BoardType" where
  "createEmptyBoard sz = replicate sz (replicate sz 0)"

text \<open>
  The nested loops of \<^verbatim>\<open>getEmptyCells\<close> visit \<open>r\<close> from 0 to \<^verbatim>\<open>board.length\<close> and \<open>c\<close> from 0
  to \<^verbatim>\<open>board[r].length\<close>, pushing \<open>[r, c]\<close> when the cell is 0: the empty cells in row-major
  order. Every read is inside the array.
\<close>

definition getEmptyCells :: "BoardType \<Rightarrow> (nat \<times> nat) list" where
  "getEmptyCells board =
     concat (map (\<lambda>r. map (\<lambda>c. (r, c))
                          (filter (\<lambda>c. board ! r ! c = 0) [0..<length (board ! r)]))
                 [0..<length board])"

text \<open>
  \<^verbatim>\<open>addRandomTile\<close> copies the board (\<^verbatim>\<open>board.map(row => [...row])\<close>: the same value), and
  either returns the copy with \<^verbatim>\<open>null\<close>, or overwrites the cell at index
  \<^verbatim>\<open>Math.floor(Math.random() * emptyCells.length)\<close> of the empty cells with 2 when the second
  draw is below 0.9 and with 4 otherwise. The input board is a value and is never changed.
\<close>

definition addRandomTile :: "BoardType \<Rightarrow> rnd \<Rightarrow> rnd \<Rightarrow> BoardType \<times> (nat \<times> nat) option" where
  "addRandomTile board u1 u2 =
     (let newBoard = board;
          emptyCells = getEmptyCells newBoard
      in if length emptyCells = 0 then (newBoard, None)
         else
           (let (r, c) = emptyCells ! nat \<lfloor>Rep_rnd u1 * real (length emptyCells)\<rfloor>;
                v = (if Rep_rnd u2 < 9 / 10 then 2 else 4)
            in (newBoard[r := (newBoard ! r)[c := v]], Some (r, c))))"

definition initBoard ::
  "nat \<Rightarrow> rnd \<Rightarrow> rnd \<Rightarrow> rnd \<Rightarrow> rnd \<Rightarrow> BoardType \<times> (nat \<times> nat) list" where
  "initBoard sz u1 u2 u3 u4 =
     (let board = createEmptyBoard sz;
          newTiles = [];
          result1 = addRandomTile board u1 u2;
          (board, newTiles) =
             (case snd result1 of
                Some coords \<Rightarrow> (fst result1, newTiles @ [coords])
              | None \<Rightarrow> (board, newTiles));
          result2 = addRandomTile board u3 u4
      in (case snd result2 of
            Some coords \<Rightarrow> (fst result2, newTiles @ [coords])
          | None \<Rightarrow> (board, newTiles)))"

text \<open>
  The second loop of \<^verbatim>\<open>slideAndMerge\<close>, with its loop variable \<open>i\<close> and the two accumulators.
  The extra \<^verbatim>\<open>i++\<close> of the merging branch makes the step 2 there.
\<close>

function mergeLoop :: "TileValue list \<Rightarrow> nat \<Rightarrow> TileValue list \<Rightarrow> int \<Rightarrow> TileValue list \<times> int" where
  "mergeLoop filtered i newRow score =
     (if i < length filtered then
        (if i + 1 < length filtered \<and> filtered ! i = filtered ! (i + 1) then
           (let mergedValue = filtered ! i * 2
            in mergeLoop filtered (i + 2) (newRow @ [mergedValue]) (score + mergedValue))
         else mergeLoop filtered (i + 1) (newRow @ [filtered ! i]) score)
      else (newRow, score))"
  by pat_completeness auto
termination
  by (relation "measure (\<lambda>(filtered, i, newRow, score). length filtered - i)") auto

declare mergeLoop.simps [simp del]

text \<open>
  The third loop pushes 0 while \<^verbatim>\<open>newRow.length < size\<close>.
\<close>

function padLoop :: "nat \<Rightarrow> TileValue list \<Rightarrow> TileValue list" where
  "padLoop sz newRow = (if length newRow < sz then padLoop sz (newRow @ [0]) else newRow)"
  by pat_completeness auto
termination
  by (relation "measure (\<lambda>(sz, newRow). sz - length newRow)") auto

declare padLoop.simps [simp del]

definition slideAndMerge :: "TileValue list \<Rightarrow> TileValue list \<times> int" where
  "slideAndMerge row =
     (let sz = length row;
          filtered = filter (\<lambda>v. v \<noteq> 0) row;
          (newRow, score) = mergeLoop filtered 0 [] 0
      in (padLoop sz newRow, score))"

text \<open>
  The rotations read \<^verbatim>\<open>grid[r][c]\<close> for all \<open>r, c < size\<close> with \<^verbatim>\<open>size = grid.length\<close> and
  store it at \<^verbatim>\<open>newGrid[c][size - 1 - r]\<close> (clockwise) or \<^verbatim>\<open>newGrid[size - 1 - c][r]\<close>
  (counter-clockwise). So cell \<open>(i, j)\<close> of the clockwise result is \<^verbatim>\<open>grid[size - 1 - j][i]\<close>
  and that of the counter-clockwise result is \<^verbatim>\<open>grid[j][size - 1 - i]\<close>. Row \<open>r\<close> exists; the
  column read is \<^verbatim>\<open>undefined\<close> when the row is shorter than \<open>size\<close>. The source then stores
  \<^verbatim>\<open>undefined\<close>, which is no value of the element type: the model returns \<open>None\<close> for
  such a grid instead of a grid.
\<close>

definition rotateRight :: "'a list list \<Rightarrow> 'a list list option" where
  "rotateRight grid =
     (let sz = length grid
      in those (map (\<lambda>i. those (map (\<lambda>j. js_get (grid ! (sz - 1 - j)) i) [0..<sz]))
                    [0..<sz]))"

definition rotateLeft :: "'a list list \<Rightarrow> 'a list list option" where
  "rotateLeft grid =
     (let sz = length grid
      in those (map (\<lambda>i. those (map (\<lambda>j. js_get (grid ! j) (sz - 1 - i)) [0..<sz]))
                    [0..<sz]))"

text \<open>
  \<^verbatim>\<open>operate\<close> maps \<^verbatim>\<open>slideAndMerge\<close> over the rows, adding each row's score to
  \<^verbatim>\<open>totalScore\<close> as it goes.
\<close>

definition operate :: "BoardType \<Rightarrow> BoardType \<times> int" where
  "operate board =
     foldl (\<lambda>(newBoard, totalScore) row.
              (let (newRow, score) = slideAndMerge row
               in (newBoard @ [newRow], totalScore + score)))
           ([], 0) board"

definition moveLeft :: "BoardType \<Rightarrow> BoardType \<times> int" where
  "moveLeft board = (let (newBoard, score) = operate board in (newBoard, score))"

definition moveRight :: "BoardType \<Rightarrow> BoardType \<times> int" where
  "moveRight board =
     (let reversed = map rev board;
          (newReversed, score) = operate reversed;
          newBoard = map rev newReversed
      in (newBoard, score))"

definition moveUp :: "BoardType \<Rightarrow> (BoardType \<times> int) option" where
  "moveUp board =
     (case rotateLeft board of
        None \<Rightarrow> None
      | Some rotated \<Rightarrow>
          (let (newRotated, score) = operate rotated
           in (case rotateRight newRotated of
                 None \<Rightarrow> None
               | Some newBoard \<Rightarrow> Some (newBoard, score))))"

definition moveDown :: "BoardType \<Rightarrow> (BoardType \<times> int) option" where
  "moveDown board =
     (case rotateRight board of
        None \<Rightarrow> None
      | Some rotated \<Rightarrow>
          (let (newRotated, score) = operate rotated
           in (case rotateLeft newRotated of
                 None \<Rightarrow> None
               | Some newBoard \<Rightarrow> Some (newBoard, score))))"

text \<open>
  \<^verbatim>\<open>areBoardsEqual\<close>: two boards that are the same object are equal cell for cell, so the
  first test is covered by the comparison that follows it.
\<close>

definition areBoardsEqual :: "BoardType \<Rightarrow> BoardType \<Rightarrow> bool" where
  "areBoardsEqual b1 b2 =
     (if length b1 \<noteq> length b2 then False
      else list_all (\<lambda>i. length (b1 ! i) = length (b2 ! i) \<and>
                          list_all (\<lambda>j. b1 ! i ! j = b2 ! i ! j) [0..<length (b1 ! i)])
                    [0..<length b1])"

text \<open>
  \<^verbatim>\<open>hasWon\<close> and \<^verbatim>\<open>isGameOver\<close> of board.ts, under the names \<^verbatim>\<open>checkWin\<close> and
  \<^verbatim>\<open>checkGameOver\<close> that useGameLogic.ts imports them as (its state has fields called
  \<^verbatim>\<open>hasWon\<close> and \<^verbatim>\<open>isGameOver\<close>).
\<close>

definition checkWin :: "BoardType \<Rightarrow> bool" where
  "checkWin board = list_ex (\<lambda>row. list_ex (\<lambda>cell. cell = 2048) row) board"

text \<open>
  \<^verbatim>\<open>canMove\<close> returns true at the first \<open>(r, c)\<close> with \<open>r, c < size\<close> whose lower or right
  neighbour holds the same value. \<^verbatim>\<open>===\<close> on a read beyond a row compares \<^verbatim>\<open>undefined\<close>,
  as equality of \<open>js_get\<close> results does.
\<close>

definition canMove :: "BoardType \<Rightarrow> bool" where
  "canMove board =
     (let sz = length board
      in list_ex (\<lambda>r. list_ex (\<lambda>c.
             (r < sz - 1 \<and> js_get (board ! r) c = js_get (board ! (r + 1)) c) \<or>
             (c < sz - 1 \<and> js_get (board ! r) c = js_get (board ! r) (c + 1)))
           [0..<sz]) [0..<sz])"

definition checkGameOver :: "BoardType \<Rightarrow> bool" where
  "checkGameOver board =
     (let hasEmptyCells = length (getEmptyCells board) > 0
      in if hasEmptyCells then False else \<not> canMove board)"

section \<open>hooks/useGameLogic.ts\<close>

text \<open>
  The state of the hook: one field for each \<^verbatim>\<open>useState\<close> cell. The high score is written
  by an effect that runs when the score has changed and by the read of the stored value,
  never by \<^verbatim>\<open>handleMove\<close>.
\<close>

record session =
  board :: BoardType
  score :: int
  highScore :: int
  isGameOver :: bool
  hasWon :: bool

datatype key = ArrowUp | ArrowDown | ArrowLeft | ArrowRight

text \<open>The \<^verbatim>\<open>switch\<close> of \<^verbatim>\<open>handleKeyDown\<close>: the move function of a key.\<close>

fun moveFunc :: "key \<Rightarrow> BoardType \<Rightarrow> (BoardType \<times> int) option" where
  "moveFunc ArrowUp = moveUp"
| "moveFunc ArrowDown = moveDown"
| "moveFunc ArrowLeft = (\<lambda>b. Some (moveLeft b))"
| "moveFunc ArrowRight = (\<lambda>b. Some (moveRight b))"

text \<open>
  \<^verbatim>\<open>handleMove\<close> as a transition of the hook's state; \<open>u1\<close> and \<open>u2\<close> are the draws that
  \<^verbatim>\<open>addRandomTile\<close> takes if it is called. The result is \<open>None\<close> only when the move function
  has no result (a board that is not square).
\<close>

definition handleMove ::
  "(BoardType \<Rightarrow> (BoardType \<times> int) option) \<Rightarrow> rnd \<Rightarrow> rnd \<Rightarrow> session \<Rightarrow> session option" where
  "handleMove moveFn u1 u2 s =
     (if isGameOver s then Some s
      else
        (case moveFn (board s) of
           None \<Rightarrow> None
         | Some (newBoard, moveScore) \<Rightarrow>
             (if \<not> areBoardsEqual (board s) newBoard then
                (let boardWithNewTile = fst (addRandomTile newBoard u1 u2);
                     s1 = s\<lparr>board := boardWithNewTile, score := score s + moveScore\<rparr>;
                     newBoardHasWon = checkWin boardWithNewTile
                 in if newBoardHasWon then Some (s1\<lparr>hasWon := True, isGameOver := True\<rparr>)
                    else if checkGameOver boardWithNewTile then Some (s1\<lparr>isGameOver := True\<rparr>)
                    else Some s1)
              else Some s)))"

text \<open>
  The initial values of the hook's \<^verbatim>\<open>useState\<close> calls, and \<^verbatim>\<open>restartGame\<close>; both seed the
  board with \<^verbatim>\<open>initBoard(boardSize)\<close>, whose four draws are inputs here.
\<close>

definition initialSession :: "nat \<Rightarrow> rnd \<Rightarrow> rnd \<Rightarrow> rnd \<Rightarrow> rnd \<Rightarrow> session" where
  "initialSession boardSize u1 u2 u3 u4 =
     \<lparr>board = fst (initBoard boardSize u1 u2 u3 u4), score = 0, highScore = 0,
      isGameOver = False, hasWon = False\<rparr>"

definition restartGame :: "nat \<Rightarrow> rnd \<Rightarrow> rnd \<Rightarrow> rnd \<Rightarrow> rnd \<Rightarrow> session \<Rightarrow> session" where
  "restartGame boardSize u1 u2 u3 u4 s =
     s\<lparr>board := fst (initBoard boardSize u1 u2 u3 u4), score := 0,
       isGameOver := False, hasWon := False\<rparr>"

text \<open>
  A sequence of key presses, each with the draws its spawn may take, handled one after
  the other.
\<close>

fun run :: "session \<Rightarrow> (key \<times> rnd \<times> rnd) list \<Rightarrow> session option" where
  "run s [] = Some s"
| "run s ((k, u1, u2) # inputs) =
     (case handleMove (moveFunc k) u1 u2 s of
        None \<Rightarrow> None
      | Some s' \<Rightarrow> run s' inputs)"

section \<open>The specification's notions\<close>

text \<open>
  A square grid of side \<open>N\<close>: \<open>N\<close> rows of \<open>N\<close> cells.
\<close>

definition square :: "nat \<Rightarrow> 'a list list \<Rightarrow> bool" where
  "square N g = (length g = N \<and> list_all (\<lambda>row. length row = N) g)"

text \<open>
  The specification's rotations of a grid of side \<open>N\<close>, by where each cell goes:
  clockwise, the cell at \<open>(r, c)\<close> moves to \<open>(c, N - 1 - r)\<close>, so the cell at \<open>(i, j)\<close> of the
  result is the one that was at \<open>(N - 1 - j, i)\<close>; counter-clockwise, the cell at \<open>(r, c)\<close>
  moves to \<open>(N - 1 - c, r)\<close>, so the cell at \<open>(i, j)\<close> of the result was at \<open>(j, N - 1 - i)\<close>.
\<close>

definition rotateClockwise :: "'a list list \<Rightarrow> 'a list list" where
  "rotateClockwise g =
     (let N = length g in map (\<lambda>i. map (\<lambda>j. g ! (N - 1 - j) ! i) [0..<N]) [0..<N])"

definition rotateCounterClockwise :: "'a list list \<Rightarrow> 'a list list" where
  "rotateCounterClockwise g =
     (let N = length g in map (\<lambda>i. map (\<lambda>j. g ! j ! (N - 1 - i)) [0..<N]) [0..<N])"

text \<open>
  The specification's line reducer: compact the line (drop the zeros, keeping the order),
  scan the compacted line from the left, replacing an element and an equal next element
  by one element of twice the value (added to the score delta) and going on behind the
  pair, and pad the result with zeros on the right to the length of the line.
\<close>

fun mergeScan :: "int list \<Rightarrow> int list \<times> int" where
  "mergeScan (x # y # rest) =
     (if x = y then (let (merged, delta) = mergeScan rest in (2 * x # merged, 2 * x + delta))
      else (let (merged, delta) = mergeScan (y # rest) in (x # merged, delta)))"
| "mergeScan line = (line, 0)"

definition reduceLine :: "int list \<Rightarrow> int list \<times> int" where
  "reduceLine line =
     (let compacted = filter (\<lambda>v. v \<noteq> 0) line;
          (merged, delta) = mergeScan compacted
      in (merged @ replicate (length line - length merged) 0, delta))"

text \<open>The sum of all cells of a board.\<close>

definition boardSum :: "BoardType \<Rightarrow> int" where
  "boardSum b = sum_list (map sum_list b)"

text \<open>
  The score deltas of the accepted moves of a sequence of key presses: a press is accepted
  when the session is not over and the board its move computes differs from the current
  board; the session then goes on as \<open>handleMove\<close> leaves it.
\<close>

fun acceptedDeltas :: "session \<Rightarrow> (key \<times> rnd \<times> rnd) list \<Rightarrow> int list" where
  "acceptedDeltas s [] = []"
| "acceptedDeltas s ((k, u1, u2) # inputs) =
     (case handleMove (moveFunc k) u1 u2 s of
        None \<Rightarrow> []
      | Some s' \<Rightarrow>
          (if isGameOver s then []
           else (case moveFunc k (board s) of
                   None \<Rightarrow> []
                 | Some (candidate, delta) \<Rightarrow> if candidate \<noteq> board s then [delta] else []))
          @ acceptedDeltas s' inputs)"

section \<open>The line reducer\<close>

lemma padLoop_replicate: "padLoop sz newRow = newRow @ replicate (sz - length newRow) 0"
proof (induction sz newRow rule: padLoop.induct)
  case (1 sz newRow)
  show ?case
  proof (cases "length newRow < sz")
    case True
    then have "sz - length newRow = Suc (sz - Suc (length newRow))" by arith
    with True 1 show ?thesis
      by (subst padLoop.simps) (simp add: replicate_app_Cons_same)
  next
    case False
    then show ?thesis by (subst padLoop.simps) simp
  qed
qed

lemma mergeLoop_mergeScan:
  "mergeLoop filtered i newRow sc =
     (newRow @ fst (mergeScan (drop i filtered)), sc + snd (mergeScan (drop i filtered)))"
proof (induction filtered i newRow sc rule: mergeLoop.induct)
  case (1 filtered i newRow sc)
  show ?case
  proof (cases "i < length filtered")
    case False
    then show ?thesis by (subst mergeLoop.simps) simp
  next
    case True
    note lt = this
    show ?thesis
    proof (cases "i + 1 < length filtered")
      case False
      with lt have d: "drop i filtered = [filtered ! i]"
        by (metis Cons_nth_drop_Suc Suc_eq_plus1 drop_all not_less)
      from False lt 1(2) show ?thesis
        by (subst mergeLoop.simps) (simp add: d)
    next
      case True
      then have d: "drop i filtered = filtered ! i # filtered ! (i + 1) # drop (i + 2) filtered"
        using lt by (metis Cons_nth_drop_Suc Suc_eq_plus1 add_2_eq_Suc')
      have d1: "drop (i + 1) filtered = filtered ! (i + 1) # drop (i + 2) filtered"
        using True by (metis Cons_nth_drop_Suc Suc_eq_plus1 add_2_eq_Suc')
      show ?thesis
      proof (cases "filtered ! i = filtered ! (i + 1)")
        case True
        with lt \<open>i + 1 < length filtered\<close> 1(1) show ?thesis
          by (subst mergeLoop.simps) (simp add: d Let_def split: prod.splits)
      next
        case False
        have "mergeScan (drop i filtered) =
                (filtered ! i # fst (mergeScan (drop (i + 1) filtered)),
                 snd (mergeScan (drop (i + 1) filtered)))"
          unfolding d d1 using False by (simp split: prod.splits)
        with False lt \<open>i + 1 < length filtered\<close> 1(2) show ?thesis
          by (subst mergeLoop.simps) simp
      qed
    qed
  qed
qed

lemma slideAndMerge_reduceLine: "slideAndMerge row = reduceLine row"
  by (simp add: slideAndMerge_def reduceLine_def mergeLoop_mergeScan padLoop_replicate
      split: prod.splits)

text \<open>
  Claim C2. For every line, \<open>slideAndMerge\<close> returns what the specification's reducer
  describes: the zeros removed in order, one left-to-right pass that replaces each earliest
  pair of equal neighbours by a single element of twice the value, adds that value to
  the score and does not merge the new element again, and zeros appended up to the
  length of the line. In particular \<open>[2,2,4,4]\<close> gives \<open>([4,8,0,0], 12)\<close> and \<open>[2,2,2,0]\<close>
  gives \<open>([4,2,0,0], 4)\<close>.
\<close>

theorem slideAndMerge_is_reduceLine:
  "slideAndMerge row = reduceLine row \<and>
   slideAndMerge [2, 2, 4, 4] = ([4, 8, 0, 0], 12) \<and>
   slideAndMerge [2, 2, 2, 0] = ([4, 2, 0, 0], 4)"
  by (simp add: slideAndMerge_reduceLine reduceLine_def)

theorem slideAndMerge_is_reduceLine_witness:
  "slideAndMerge [2, 0, 2, 2, 8, 8, 0] = ([4, 2, 16, 0, 0, 0, 0], 20) \<and>
   reduceLine [2, 0, 2, 2, 8, 8, 0] = ([4, 2, 16, 0, 0, 0, 0], 20)"
  using slideAndMerge_is_reduceLine [of "[2, 0, 2, 2, 8, 8, 0]"]
  by (simp add: reduceLine_def)

section \<open>Geometry transforms\<close>

lemma those_map_Some:
  "(\<And>x. x \<in> set xs \<Longrightarrow> f x = Some (g x)) \<Longrightarrow> those (map f xs) = Some (map g xs)"
  by (induction xs) simp_all

lemma square_length: "square N g \<Longrightarrow> length g = N"
  by (simp add: square_def)

lemma square_row: "square N g \<Longrightarrow> r < N \<Longrightarrow> length (g ! r) = N"
  by (simp add: square_def list_all_length)

lemma squareI: "length g = N \<Longrightarrow> (\<And>r. r < N \<Longrightarrow> length (g ! r) = N) \<Longrightarrow> square N g"
  by (simp add: square_def list_all_length)

lemma rotateRight_square:
  assumes "square N g"
  shows "rotateRight g = Some (rotateClockwise g)"
proof -
  have len: "length g = N" using assms by (rule square_length)
  have inner: "those (map (\<lambda>j. js_get (g ! (N - 1 - j)) i) [0..<N]) =
                 Some (map (\<lambda>j. g ! (N - 1 - j) ! i) [0..<N])" if "i < N" for i
  proof (rule those_map_Some)
    fix j assume "j \<in> set [0..<N]"
    then have "N - 1 - j < N" by auto
    then have "length (g ! (N - 1 - j)) = N" using assms by (simp add: square_row)
    with that show "js_get (g ! (N - 1 - j)) i = Some (g ! (N - 1 - j) ! i)"
      by (simp add: js_get_def)
  qed
  have "those (map (\<lambda>i. those (map (\<lambda>j. js_get (g ! (N - 1 - j)) i) [0..<N])) [0..<N]) =
          Some (map (\<lambda>i. map (\<lambda>j. g ! (N - 1 - j) ! i) [0..<N]) [0..<N])"
  proof (rule those_map_Some)
    fix i assume "i \<in> set [0..<N]"
    then have "i < N" by simp
    then show "those (map (\<lambda>j. js_get (g ! (N - 1 - j)) i) [0..<N]) =
                 Some (map (\<lambda>j. g ! (N - 1 - j) ! i) [0..<N])"
      by (rule inner)
  qed
  then show ?thesis by (simp add: rotateRight_def rotateClockwise_def len)
qed

lemma rotateLeft_square:
  assumes "square N g"
  shows "rotateLeft g = Some (rotateCounterClockwise g)"
proof -
  have len: "length g = N" using assms by (rule square_length)
  have inner: "those (map (\<lambda>j. js_get (g ! j) (N - 1 - i)) [0..<N]) =
                 Some (map (\<lambda>j. g ! j ! (N - 1 - i)) [0..<N])" if "i < N" for i
  proof (rule those_map_Some)
    fix j assume "j \<in> set [0..<N]"
    then have "length (g ! j) = N" using assms by (simp add: square_row)
    with that show "js_get (g ! j) (N - 1 - i) = Some (g ! j ! (N - 1 - i))"
      by (simp add: js_get_def)
  qed
  have "those (map (\<lambda>i. those (map (\<lambda>j. js_get (g ! j) (N - 1 - i)) [0..<N])) [0..<N]) =
          Some (map (\<lambda>i. map (\<lambda>j. g ! j ! (N - 1 - i)) [0..<N]) [0..<N])"
  proof (rule those_map_Some)
    fix i assume "i \<in> set [0..<N]"
    then have "i < N" by simp
    then show "those (map (\<lambda>j. js_get (g ! j) (N - 1 - i)) [0..<N]) =
                 Some (map (\<lambda>j. g ! j ! (N - 1 - i)) [0..<N])"
      by (rule inner)
  qed
  then show ?thesis by (simp add: rotateLeft_def rotateCounterClockwise_def len)
qed

lemma length_rotateClockwise: "length (rotateClockwise g) = length g"
  by (simp add: rotateClockwise_def Let_def)

lemma length_rotateCounterClockwise: "length (rotateCounterClockwise g) = length g"
  by (simp add: rotateCounterClockwise_def Let_def)

lemma nth_rotateClockwise:
  "i < length g \<Longrightarrow> rotateClockwise g ! i = map (\<lambda>j. g ! (length g - 1 - j) ! i) [0..<length g]"
  by (simp add: rotateClockwise_def Let_def)

lemma nth_rotateCounterClockwise:
  "i < length g \<Longrightarrow>
   rotateCounterClockwise g ! i = map (\<lambda>j. g ! j ! (length g - 1 - i)) [0..<length g]"
  by (simp add: rotateCounterClockwise_def Let_def)

lemma square_rotateClockwise: "length g = N \<Longrightarrow> square N (rotateClockwise g)"
  by (rule squareI) (simp_all add: length_rotateClockwise nth_rotateClockwise)

lemma square_rotateCounterClockwise: "length g = N \<Longrightarrow> square N (rotateCounterClockwise g)"
  by (rule squareI) (simp_all add: length_rotateCounterClockwise nth_rotateCounterClockwise)

lemma cell_rotateClockwise:
  "i < length g \<Longrightarrow> j < length g \<Longrightarrow> rotateClockwise g ! i ! j = g ! (length g - 1 - j) ! i"
  by (simp add: nth_rotateClockwise)

lemma cell_rotateCounterClockwise:
  "i < length g \<Longrightarrow> j < length g \<Longrightarrow>
   rotateCounterClockwise g ! i ! j = g ! j ! (length g - 1 - i)"
  by (simp add: nth_rotateCounterClockwise)

lemma square_eqI:
  assumes "square N g" "square N h"
    and "\<And>i j. i < N \<Longrightarrow> j < N \<Longrightarrow> g ! i ! j = h ! i ! j"
  shows "g = h"
proof (rule nth_equalityI)
  show "length g = length h" using assms(1,2) by (simp add: square_length)
next
  fix i assume "i < length g"
  then have i: "i < N" using assms(1) by (simp add: square_length)
  show "g ! i = h ! i"
  proof (rule nth_equalityI)
    show "length (g ! i) = length (h ! i)" using assms(1,2) i by (simp add: square_row)
  next
    fix j assume "j < length (g ! i)"
    then have "j < N" using assms(1) i by (simp add: square_row)
    with i show "g ! i ! j = h ! i ! j" by (rule assms(3))
  qed
qed

lemma rotateCounterClockwise_rotateClockwise:
  assumes "square N g"
  shows "rotateCounterClockwise (rotateClockwise g) = g"
proof (rule square_eqI [of N])
  have len: "length g = N" using assms by (rule square_length)
  show "square N (rotateCounterClockwise (rotateClockwise g))"
    by (simp add: square_rotateCounterClockwise length_rotateClockwise len)
  show "square N g" by (rule assms)
  fix i j assume ij: "i < N" "j < N"
  then have "N - 1 - (N - 1 - i) = i" by arith
  with ij show "rotateCounterClockwise (rotateClockwise g) ! i ! j = g ! i ! j"
    by (simp add: cell_rotateCounterClockwise cell_rotateClockwise length_rotateClockwise len)
qed

lemma rotateClockwise_rotateCounterClockwise:
  assumes "square N g"
  shows "rotateClockwise (rotateCounterClockwise g) = g"
proof (rule square_eqI [of N])
  have len: "length g = N" using assms by (rule square_length)
  show "square N (rotateClockwise (rotateCounterClockwise g))"
    by (simp add: square_rotateClockwise length_rotateCounterClockwise len)
  show "square N g" by (rule assms)
  fix i j assume ij: "i < N" "j < N"
  then have "N - 1 - (N - 1 - j) = j" by arith
  with ij show "rotateClockwise (rotateCounterClockwise g) ! i ! j = g ! i ! j"
    by (simp add: cell_rotateCounterClockwise cell_rotateClockwise
        length_rotateCounterClockwise len)
qed

text \<open>
  Claim C5. For every square grid, of any element type and any side \<open>N\<close>, \<open>rotateRight\<close>
  (clockwise) returns a grid of the same dimensions in which the cell that was at \<open>(r, c)\<close>
  is at \<open>(c, N - 1 - r)\<close>, \<open>rotateLeft\<close> (counter-clockwise) returns a grid of the same
  dimensions in which the cell that was at \<open>(r, c)\<close> is at \<open>(N - 1 - c, r)\<close>, and each undoes
  the other: rotating the clockwise result counter-clockwise, or the counter-clockwise
  result clockwise, gives the grid back.
\<close>

theorem rotations_inverse:
  assumes "square N g"
  shows "(\<exists>cw. rotateRight g = Some cw \<and> square N cw \<and>
            (\<forall>r c. r < N \<and> c < N \<longrightarrow> cw ! c ! (N - 1 - r) = g ! r ! c) \<and>
            rotateLeft cw = Some g) \<and>
         (\<exists>ccw. rotateLeft g = Some ccw \<and> square N ccw \<and>
            (\<forall>r c. r < N \<and> c < N \<longrightarrow> ccw ! (N - 1 - c) ! r = g ! r ! c) \<and>
            rotateRight ccw = Some g)"
proof -
  have len: "length g = N" using assms by (rule square_length)
  have cw: "square N (rotateClockwise g)" using len by (rule square_rotateClockwise)
  have ccw: "square N (rotateCounterClockwise g)" using len by (rule square_rotateCounterClockwise)
  have a: "rotateClockwise g ! c ! (N - 1 - r) = g ! r ! c" if "r < N" "c < N" for r c
  proof -
    from that have "N - 1 - (N - 1 - r) = r" "N - 1 - r < N" by arith+
    with that show ?thesis by (simp add: cell_rotateClockwise len)
  qed
  have b: "rotateCounterClockwise g ! (N - 1 - c) ! r = g ! r ! c" if "r < N" "c < N" for r c
  proof -
    from that have "N - 1 - (N - 1 - c) = c" "N - 1 - c < N" by arith+
    with that show ?thesis by (simp add: cell_rotateCounterClockwise len)
  qed
  have 1: "rotateLeft (rotateClockwise g) = Some g"
    using rotateLeft_square [OF cw] rotateCounterClockwise_rotateClockwise [OF assms] by simp
  have 2: "rotateRight (rotateCounterClockwise g) = Some g"
    using rotateRight_square [OF ccw] rotateClockwise_rotateCounterClockwise [OF assms] by simp
  show ?thesis
    using rotateRight_square [OF assms] rotateLeft_square [OF assms] cw ccw a b 1 2 by simp
qed

theorem rotations_inverse_witness:
  "square 3 [[1,2,3::int],[4,5,6],[7,8,9]] \<and>
   rotateRight [[1,2,3::int],[4,5,6],[7,8,9]] = Some [[7,4,1],[8,5,2],[9,6,3]] \<and>
   rotateLeft [[7,4,1],[8,5,2],[9,6,3::int]] = Some [[1,2,3::int],[4,5,6],[7,8,9]]"
  using rotations_inverse [of 3 "[[1,2,3::int],[4,5,6],[7,8,9]]"]
  by (simp add: square_def rotateRight_def rotateLeft_def js_get_def upt_rec)

section \<open>Move engine\<close>

lemma operate_foldl:
  "foldl (\<lambda>(newBoard, totalScore) row.
            (let (newRow, score) = slideAndMerge row
             in (newBoard @ [newRow], totalScore + score)))
         (acc, tot) rows =
   (acc @ map (\<lambda>row. fst (slideAndMerge row)) rows,
    tot + sum_list (map (\<lambda>row. snd (slideAndMerge row)) rows))"
  by (induction rows arbitrary: acc tot) (simp_all add: case_prod_beta Let_def)

lemma operate_map:
  "operate b = (map (\<lambda>row. fst (reduceLine row)) b, sum_list (map (\<lambda>row. snd (reduceLine row)) b))"
  unfolding operate_def operate_foldl by (simp add: slideAndMerge_reduceLine)

lemma moveLeft_map:
  "moveLeft b = (map (\<lambda>row. fst (reduceLine row)) b, sum_list (map (\<lambda>row. snd (reduceLine row)) b))"
  by (simp add: moveLeft_def operate_map)

lemma moveRight_map:
  "moveRight b =
     (map (\<lambda>row. rev (fst (reduceLine (rev row)))) b,
      sum_list (map (\<lambda>row. snd (reduceLine (rev row))) b))"
  by (simp add: moveRight_def operate_map comp_def)

lemma length_mergeScan: "length (fst (mergeScan xs)) \<le> length xs"
  by (induction xs rule: mergeScan.induct) (auto split: prod.splits)

lemma length_reduceLine: "length (fst (reduceLine line)) = length line"
proof -
  have "length (fst (mergeScan (filter (\<lambda>v. v \<noteq> 0) line))) \<le> length line"
    using length_mergeScan [of "filter (\<lambda>v. v \<noteq> 0) line"] length_filter_le [of "\<lambda>v. v \<noteq> 0" line]
    by (rule order_trans)
  then show ?thesis by (simp add: reduceLine_def case_prod_beta Let_def)
qed

lemma square_map_reduceLine:
  "square N b \<Longrightarrow> square N (map (\<lambda>row. fst (reduceLine row)) b)"
  by (simp add: square_def list_all_iff length_reduceLine)

lemma moveUp_square:
  assumes "square N b"
  shows "moveUp b =
     Some (rotateClockwise (map (\<lambda>row. fst (reduceLine row)) (rotateCounterClockwise b)),
           sum_list (map (\<lambda>row. snd (reduceLine row)) (rotateCounterClockwise b)))"
proof -
  have len: "length b = N" using assms by (simp add: square_def)
  have "square N (rotateCounterClockwise b)" using len by (rule square_rotateCounterClockwise)
  then have "square N (map (\<lambda>row. fst (reduceLine row)) (rotateCounterClockwise b))"
    by (rule square_map_reduceLine)
  then show ?thesis
    by (simp add: moveUp_def rotateLeft_square [OF assms] operate_map rotateRight_square)
qed

lemma moveDown_square:
  assumes "square N b"
  shows "moveDown b =
     Some (rotateCounterClockwise (map (\<lambda>row. fst (reduceLine row)) (rotateClockwise b)),
           sum_list (map (\<lambda>row. snd (reduceLine row)) (rotateClockwise b)))"
proof -
  have len: "length b = N" using assms by (simp add: square_def)
  have "square N (rotateClockwise b)" using len by (rule square_rotateClockwise)
  then have "square N (map (\<lambda>row. fst (reduceLine row)) (rotateClockwise b))"
    by (rule square_map_reduceLine)
  then show ?thesis
    by (simp add: moveDown_def rotateRight_square [OF assms] operate_map rotateLeft_square)
qed

text \<open>
  Claim C6. For every square board, the up move is: rotate counter-clockwise, apply the
  leftward line reducer to every row, rotate clockwise; the down move is: rotate
  clockwise, reduce every row, rotate counter-clockwise; the right move is: reverse every
  row, reduce it, reverse the result back; and the score delta of each move (the left
  move included) is the sum of the score deltas of the reducer over the rows it is
  applied to. The rotations are those of \<open>rotateLeft\<close> and \<open>rotateRight\<close>.
\<close>

theorem moves_by_rotation:
  assumes "square N b"
  shows "moveUp b =
           Some (rotateClockwise (map (\<lambda>row. fst (reduceLine row)) (rotateCounterClockwise b)),
                 sum_list (map (\<lambda>row. snd (reduceLine row)) (rotateCounterClockwise b))) \<and>
         moveDown b =
           Some (rotateCounterClockwise (map (\<lambda>row. fst (reduceLine row)) (rotateClockwise b)),
                 sum_list (map (\<lambda>row. snd (reduceLine row)) (rotateClockwise b))) \<and>
         moveRight b =
           (map rev (map (\<lambda>row. fst (reduceLine row)) (map rev b)),
            sum_list (map (\<lambda>row. snd (reduceLine row)) (map rev b))) \<and>
         moveLeft b =
           (map (\<lambda>row. fst (reduceLine row)) b,
            sum_list (map (\<lambda>row. snd (reduceLine row)) b)) \<and>
         rotateLeft b = Some (rotateCounterClockwise b) \<and>
         rotateRight b = Some (rotateClockwise b)"
  using moveUp_square [OF assms] moveDown_square [OF assms]
    rotateLeft_square [OF assms] rotateRight_square [OF assms]
  by (simp add: moveRight_map moveLeft_map comp_def)

theorem moves_by_rotation_witness:
  "square 2 [[2, 0], [2, 4]] \<and>
   moveUp [[2, 0], [2, 4]] = Some ([[4, 4], [0, 0]], 4) \<and>
   moveDown [[2, 0], [2, 4]] = Some ([[0, 0], [4, 4]], 4) \<and>
   moveRight [[2, 0], [2, 4]] = ([[0, 2], [2, 4]], 0) \<and>
   moveLeft [[2, 0], [2, 4]] = ([[2, 0], [2, 4]], 0)"
  using moves_by_rotation [of 2 "[[2, 0], [2, 4]]"]
  by (simp add: square_def rotateClockwise_def rotateCounterClockwise_def reduceLine_def upt_rec)

section \<open>Conservation of the tile total\<close>

lemma sum_mergeScan: "sum_list (fst (mergeScan xs)) = sum_list xs"
  by (induction xs rule: mergeScan.induct) (auto split: prod.splits)

lemma sum_filter_nonzero: "sum_list (filter (\<lambda>v. v \<noteq> 0) xs) = sum_list (xs :: int list)"
  by (induction xs) simp_all

lemma sum_reduceLine: "sum_list (fst (reduceLine line)) = sum_list line"
  by (simp add: reduceLine_def case_prod_beta Let_def sum_mergeScan sum_filter_nonzero
      sum_list_replicate)

lemma boardSum_map_reduceLine: "boardSum (map (\<lambda>row. fst (reduceLine row)) b) = boardSum b"
  by (simp add: boardSum_def comp_def sum_reduceLine)

lemma boardSum_indices:
  assumes "square N b"
  shows "boardSum b = (\<Sum>r<N. \<Sum>c<N. b ! r ! c)"
proof -
  have len: "length b = N" using assms by (rule square_length)
  have "boardSum b = (\<Sum>r = 0..<N. sum_list (b ! r))"
    by (simp add: boardSum_def sum_list_sum_nth len)
  also have "\<dots> = (\<Sum>r = 0..<N. \<Sum>c = 0..<N. b ! r ! c)"
    by (rule sum.cong) (simp_all add: sum_list_sum_nth square_row [OF assms])
  finally show ?thesis by (simp add: lessThan_atLeast0)
qed

lemma sum_rev_index: "(\<Sum>j<N. f (N - 1 - j)) = (\<Sum>j<N. f j)" for f :: "nat \<Rightarrow> int"
  using sum.atLeastLessThan_rev [of f 0 N] by (simp add: lessThan_atLeast0)

lemma boardSum_rotateClockwise:
  assumes "square N b"
  shows "boardSum (rotateClockwise b) = boardSum b"
proof -
  have len: "length b = N" using assms by (rule square_length)
  have "boardSum (rotateClockwise b) = (\<Sum>i<N. \<Sum>j<N. rotateClockwise b ! i ! j)"
    using len by (intro boardSum_indices square_rotateClockwise)
  also have "\<dots> = (\<Sum>i<N. \<Sum>j<N. b ! (N - 1 - j) ! i)"
    by (intro sum.cong refl) (simp add: cell_rotateClockwise len)
  also have "\<dots> = (\<Sum>i<N. \<Sum>j<N. b ! j ! i)"
    by (rule sum.cong [OF refl]) (rule sum_rev_index)
  also have "\<dots> = (\<Sum>j<N. \<Sum>i<N. b ! j ! i)"
    by (rule sum.swap)
  also have "\<dots> = boardSum b"
    using assms by (simp add: boardSum_indices)
  finally show ?thesis .
qed

lemma boardSum_rotateCounterClockwise:
  assumes "square N b"
  shows "boardSum (rotateCounterClockwise b) = boardSum b"
proof -
  have len: "length b = N" using assms by (rule square_length)
  have "boardSum (rotateCounterClockwise b) = (\<Sum>i<N. \<Sum>j<N. rotateCounterClockwise b ! i ! j)"
    using len by (intro boardSum_indices square_rotateCounterClockwise)
  also have "\<dots> = (\<Sum>i<N. \<Sum>j<N. b ! j ! (N - 1 - i))"
    by (intro sum.cong refl) (simp add: cell_rotateCounterClockwise len)
  also have "\<dots> = (\<Sum>i<N. \<Sum>j<N. b ! j ! i)"
    by (rule sum_rev_index)
  also have "\<dots> = (\<Sum>j<N. \<Sum>i<N. b ! j ! i)"
    by (rule sum.swap)
  also have "\<dots> = boardSum b"
    using assms by (simp add: boardSum_indices)
  finally show ?thesis .
qed

lemma boardSum_moveLeft: "boardSum (fst (moveLeft b)) = boardSum b"
  by (simp add: moveLeft_map boardSum_map_reduceLine)

lemma boardSum_moveRight: "boardSum (fst (moveRight b)) = boardSum b"
  by (simp add: moveRight_map boardSum_def comp_def sum_reduceLine)

lemma boardSum_moveUp:
  assumes "square N b"
  shows "map_option (\<lambda>(newBoard, delta). boardSum newBoard) (moveUp b) = Some (boardSum b)"
proof -
  have len: "length b = N" using assms by (rule square_length)
  have sq: "square N (rotateCounterClockwise b)" using len by (rule square_rotateCounterClockwise)
  have "boardSum (rotateClockwise (map (\<lambda>row. fst (reduceLine row)) (rotateCounterClockwise b))) =
        boardSum (map (\<lambda>row. fst (reduceLine row)) (rotateCounterClockwise b))"
    using sq by (intro boardSum_rotateClockwise square_map_reduceLine)
  then show ?thesis
    by (simp add: moveUp_square [OF assms] boardSum_map_reduceLine
        boardSum_rotateCounterClockwise [OF assms])
qed

lemma boardSum_moveDown:
  assumes "square N b"
  shows "map_option (\<lambda>(newBoard, delta). boardSum newBoard) (moveDown b) = Some (boardSum b)"
proof -
  have len: "length b = N" using assms by (rule square_length)
  have sq: "square N (rotateClockwise b)" using len by (rule square_rotateClockwise)
  have "boardSum (rotateCounterClockwise (map (\<lambda>row. fst (reduceLine row)) (rotateClockwise b))) =
        boardSum (map (\<lambda>row. fst (reduceLine row)) (rotateClockwise b))"
    using sq by (intro boardSum_rotateCounterClockwise square_map_reduceLine)
  then show ?thesis
    by (simp add: moveDown_square [OF assms] boardSum_map_reduceLine
        boardSum_rotateClockwise [OF assms])
qed

text \<open>
  Claim C9. The line reducer conserves the total: the entries of the row that
  \<open>slideAndMerge\<close> returns add up to the same sum as those of its input line. Hence every move
  returns a board with the same total of cells as its input board: \<open>moveLeft\<close> and
  \<open>moveRight\<close> on any board, \<open>moveUp\<close> and \<open>moveDown\<close> on any square board.
\<close>

theorem moves_conserve_sum:
  "sum_list (fst (slideAndMerge line)) = sum_list line \<and>
   boardSum (fst (moveLeft b)) = boardSum b \<and>
   boardSum (fst (moveRight b)) = boardSum b \<and>
   (square N b \<longrightarrow>
      map_option (\<lambda>(newBoard, delta). boardSum newBoard) (moveUp b) = Some (boardSum b) \<and>
      map_option (\<lambda>(newBoard, delta). boardSum newBoard) (moveDown b) = Some (boardSum b))"
  by (simp add: slideAndMerge_reduceLine sum_reduceLine boardSum_moveLeft boardSum_moveRight
      boardSum_moveUp boardSum_moveDown)

theorem moves_conserve_sum_witness:
  "sum_list (fst (slideAndMerge [2, 2, 4, 0])) = 8 \<and>
   boardSum (fst (moveLeft [[2, 2], [4, 4]])) = 12 \<and>
   boardSum (fst (moveRight [[2, 2], [4, 4]])) = 12 \<and>
   square 2 [[2, 2], [4, 4]] \<and>
   map_option (\<lambda>(newBoard, delta). boardSum newBoard) (moveUp [[2, 2], [4, 4]]) = Some 12 \<and>
   map_option (\<lambda>(newBoard, delta). boardSum newBoard) (moveDown [[2, 2], [4, 4]]) = Some 12"
  using moves_conserve_sum [of "[2, 2, 4, 0]" "[[2, 2], [4, 4]]" 2]
  by (simp add: square_def boardSum_def rotateClockwise_def rotateCounterClockwise_def
      reduceLine_def upt_rec)

section \<open>Board state queries\<close>

lemma set_getEmptyCells:
  "set (getEmptyCells b) = {(r, c). r < length b \<and> c < length (b ! r) \<and> b ! r ! c = 0}"
  by (auto simp: getEmptyCells_def)

lemma getEmptyCells_Nil_iff: "getEmptyCells b = [] \<longleftrightarrow> \<not> (\<exists>row\<in>set b. 0 \<in> set row)"
proof -
  have "getEmptyCells b = [] \<longleftrightarrow> set (getEmptyCells b) = {}" by simp
  also have "\<dots> \<longleftrightarrow> \<not> (\<exists>r<length b. \<exists>c<length (b ! r). b ! r ! c = 0)"
    unfolding set_getEmptyCells by auto
  also have "\<dots> \<longleftrightarrow> \<not> (\<exists>row\<in>set b. 0 \<in> set row)"
    by (metis in_set_conv_nth)
  finally show ?thesis .
qed

lemma areBoardsEqual_iff: "areBoardsEqual b1 b2 \<longleftrightarrow> b1 = b2"
proof
  assume eq: "areBoardsEqual b1 b2"
  then have len: "length b1 = length b2"
    by (simp add: areBoardsEqual_def split: if_splits)
  from eq len have rows: "\<And>i. i < length b1 \<Longrightarrow>
      length (b1 ! i) = length (b2 ! i) \<and> (\<forall>j<length (b1 ! i). b1 ! i ! j = b2 ! i ! j)"
    by (simp add: areBoardsEqual_def list_all_iff)
  show "b1 = b2"
  proof (rule nth_equalityI [OF len])
    fix i assume "i < length b1"
    with rows show "b1 ! i = b2 ! i" by (intro nth_equalityI) simp_all
  qed
next
  assume "b1 = b2"
  then show "areBoardsEqual b1 b2" by (simp add: areBoardsEqual_def list_all_iff)
qed

lemma canMove_square:
  assumes "square N b"
  shows "canMove b \<longleftrightarrow>
    (\<exists>r c. r < N \<and> c < N \<and>
       ((r + 1 < N \<and> b ! r ! c = b ! (r + 1) ! c) \<or> (c + 1 < N \<and> b ! r ! c = b ! r ! (c + 1))))"
proof -
  have len: "length b = N" using assms by (rule square_length)
  have cell: "js_get (b ! r) c = Some (b ! r ! c)" if "r < N" "c < N" for r c
    using that square_row [OF assms] by (simp add: js_get_def)
  have "canMove b \<longleftrightarrow>
    (\<exists>r<N. \<exists>c<N. (r < N - 1 \<and> js_get (b ! r) c = js_get (b ! (r + 1)) c) \<or>
                  (c < N - 1 \<and> js_get (b ! r) c = js_get (b ! r) (c + 1)))"
    unfolding canMove_def Let_def len list_ex_iff Bex_def set_upt atLeastLessThan_iff
    by (simp only: le0 simp_thms)
  also have "\<dots> \<longleftrightarrow>
    (\<exists>r<N. \<exists>c<N. (r + 1 < N \<and> b ! r ! c = b ! (r + 1) ! c) \<or>
                  (c + 1 < N \<and> b ! r ! c = b ! r ! (c + 1)))"
  proof (intro ex_cong1 conj_cong refl)
    fix r c assume rc: "r < N" "c < N"
    have "(r < N - 1 \<and> js_get (b ! r) c = js_get (b ! (r + 1)) c) \<longleftrightarrow>
          (r + 1 < N \<and> b ! r ! c = b ! (r + 1) ! c)"
      using rc cell by (cases "r + 1 < N") auto
    moreover have "(c < N - 1 \<and> js_get (b ! r) c = js_get (b ! r) (c + 1)) \<longleftrightarrow>
          (c + 1 < N \<and> b ! r ! c = b ! r ! (c + 1))"
      using rc cell by (cases "c + 1 < N") auto
    ultimately show "((r < N - 1 \<and> js_get (b ! r) c = js_get (b ! (r + 1)) c) \<or>
                  (c < N - 1 \<and> js_get (b ! r) c = js_get (b ! r) (c + 1))) =
       ((r + 1 < N \<and> b ! r ! c = b ! (r + 1) ! c) \<or>
                  (c + 1 < N \<and> b ! r ! c = b ! r ! (c + 1)))"
      by simp
  qed
  finally show ?thesis by blast
qed

lemma checkGameOver_empty: "\<exists>row\<in>set b. 0 \<in> set row \<Longrightarrow> \<not> checkGameOver b"
  using getEmptyCells_Nil_iff [of b] by (simp add: checkGameOver_def)

lemma checkGameOver_full:
  "\<not> (\<exists>row\<in>set b. 0 \<in> set row) \<Longrightarrow> checkGameOver b \<longleftrightarrow> \<not> canMove b"
  using getEmptyCells_Nil_iff [of b] by (simp add: checkGameOver_def)

text \<open>
  Claim C3. \<open>isGameOver\<close> of board.ts (\<open>checkGameOver\<close> here) is false for every board with
  at least one empty (zero) cell, whatever its neighbouring cells hold; and for every
  square board with no empty cell it is true if and only if no two horizontally or
  vertically adjacent cells hold equal values.
\<close>

theorem checkGameOver_spec:
  "((\<exists>row\<in>set b. 0 \<in> set row) \<longrightarrow> \<not> checkGameOver b) \<and>
   (square N b \<and> \<not> (\<exists>row\<in>set b. 0 \<in> set row) \<longrightarrow>
      (checkGameOver b \<longleftrightarrow>
         \<not> (\<exists>r c. r < N \<and> c < N \<and>
               ((r + 1 < N \<and> b ! r ! c = b ! (r + 1) ! c) \<or>
                (c + 1 < N \<and> b ! r ! c = b ! r ! (c + 1))))))"
  using checkGameOver_empty [of b] checkGameOver_full [of b] canMove_square [of N b]
  by blast

theorem checkGameOver_spec_witness:
  "square 2 [[2::int, 4], [4, 2]] \<and> checkGameOver [[2, 4], [4, 2]] \<and>
   \<not> checkGameOver [[2, 0], [4, 2]] \<and> \<not> checkGameOver [[2, 4], [4, 4]]"
proof -
  have "checkGameOver [[2, 4], [4, 2]]" by code_simp
  moreover have "\<not> checkGameOver [[2, 4], [4, 4]]" by code_simp
  moreover have "square 2 [[2::int, 4], [4, 2]]" by (simp add: square_def)
  ultimately show ?thesis
    using checkGameOver_spec [of "[[2, 0], [4, 2]]" 2] checkGameOver_spec [of "[[2, 4], [4, 2]]" 2]
    by simp
qed

section \<open>Tile spawner\<close>

lemma Rep_rnd_range: "0 \<le> Rep_rnd u \<and> Rep_rnd u < 1"
  using Rep_rnd [of u] by simp

lemma rnd_index_less:
  assumes "0 < n"
  shows "nat \<lfloor>Rep_rnd u * real n\<rfloor> < n"
proof -
  have "Rep_rnd u * real n < 1 * real n"
    using assms Rep_rnd_range [of u] by (intro mult_strict_right_mono) simp_all
  then have "\<lfloor>Rep_rnd u * real n\<rfloor> < int n"
    by (simp add: floor_less_iff)
  moreover have "0 \<le> \<lfloor>Rep_rnd u * real n\<rfloor>"
    using Rep_rnd_range [of u] by simp
  ultimately show ?thesis by linarith
qed

lemma addRandomTile_full:
  "getEmptyCells b = [] \<Longrightarrow> addRandomTile b u1 u2 = (b, None)"
  by (simp add: addRandomTile_def)

lemma addRandomTile_spawn:
  assumes "getEmptyCells b \<noteq> []"
  shows "\<exists>r c v. addRandomTile b u1 u2 = (b[r := (b ! r)[c := v]], Some (r, c)) \<and>
           r < length b \<and> c < length (b ! r) \<and> b ! r ! c = 0 \<and> (v = 2 \<or> v = 4)"
proof -
  define k where "k = nat \<lfloor>Rep_rnd u1 * real (length (getEmptyCells b))\<rfloor>"
  obtain r c where rc: "getEmptyCells b ! k = (r, c)" by (cases "getEmptyCells b ! k")
  define v :: int where "v = (if Rep_rnd u2 < 9 / 10 then 2 else 4)"
  have "k < length (getEmptyCells b)"
    unfolding k_def using assms by (intro rnd_index_less) simp
  then have "(r, c) \<in> set (getEmptyCells b)"
    using rc by (metis nth_mem)
  then have cell: "r < length b \<and> c < length (b ! r) \<and> b ! r ! c = 0"
    by (simp add: set_getEmptyCells)
  have "addRandomTile b u1 u2 = (b[r := (b ! r)[c := v]], Some (r, c))"
    using assms rc by (simp add: addRandomTile_def Let_def k_def [symmetric] v_def)
  moreover have "v = 2 \<or> v = 4" by (simp add: v_def)
  ultimately show ?thesis using cell by blast
qed

lemma nth_update_cell:
  assumes "i < length b"
  shows "b[r := (b ! r)[c := v]] ! i ! j = (if i = r \<and> j = c \<and> j < length (b ! i) then v else b ! i ! j)"
  using assms by (cases "i = r") (auto simp: nth_list_update list_update_beyond)

lemma length_update_row:
  "i < length b \<Longrightarrow> length (b[r := (b ! r)[c := v]] ! i) = length (b ! i)"
  by (cases "i = r") simp_all

lemma Rep_Abs_rnd: "0 \<le> x \<Longrightarrow> x < 1 \<Longrightarrow> Rep_rnd (Abs_rnd x) = x"
  by (simp add: Abs_rnd_inverse)

lemma getEmptyCells_example: "getEmptyCells [[2, 0], [0, 4]] = [(0, 1), (1, 0)]"
  by code_simp
lemma getEmptyCells_full_example: "getEmptyCells [[2, 4], [8, 4]] = []"
  by code_simp

text \<open>
  Claim C7. On a board with no empty cell \<open>addRandomTile\<close> returns the board as it is and no
  coordinate. On a board with an empty cell, whatever the two draws are, it returns the
  coordinate of a cell that was 0 and a board of the same shape that holds 2 or 4 there
  and agrees with the input in every other cell. The input board is a value of the
  model: the function returns a new board and cannot change the one it was given.
\<close>

theorem addRandomTile_spec:
  "(\<not> (\<exists>row\<in>set b. 0 \<in> set row) \<longrightarrow> addRandomTile b u1 u2 = (b, None)) \<and>
   ((\<exists>row\<in>set b. 0 \<in> set row) \<longrightarrow>
      (\<exists>r c. snd (addRandomTile b u1 u2) = Some (r, c) \<and>
         r < length b \<and> c < length (b ! r) \<and> b ! r ! c = 0 \<and>
         (fst (addRandomTile b u1 u2) ! r ! c = 2 \<or> fst (addRandomTile b u1 u2) ! r ! c = 4) \<and>
         length (fst (addRandomTile b u1 u2)) = length b \<and>
         (\<forall>i j. i < length b \<longrightarrow>
            length (fst (addRandomTile b u1 u2) ! i) = length (b ! i) \<and>
            (j < length (b ! i) \<and> (i, j) \<noteq> (r, c) \<longrightarrow>
               fst (addRandomTile b u1 u2) ! i ! j = b ! i ! j))))"
proof (intro conjI impI)
  assume "\<not> (\<exists>row\<in>set b. 0 \<in> set row)"
  then show "addRandomTile b u1 u2 = (b, None)"
    by (intro addRandomTile_full) (simp add: getEmptyCells_Nil_iff)
next
  assume "\<exists>row\<in>set b. 0 \<in> set row"
  then have "getEmptyCells b \<noteq> []" by (simp add: getEmptyCells_Nil_iff)
  then obtain r c v where eq: "addRandomTile b u1 u2 = (b[r := (b ! r)[c := v]], Some (r, c))"
    and rc: "r < length b" "c < length (b ! r)" "b ! r ! c = 0" and v: "v = 2 \<or> v = 4"
    using addRandomTile_spawn [of b u1 u2] by blast
  have "fst (addRandomTile b u1 u2) ! r ! c = v"
    using rc by (simp add: eq nth_update_cell)
  moreover have "length (fst (addRandomTile b u1 u2) ! i) = length (b ! i)" if "i < length b" for i
    using that by (simp add: eq length_update_row)
  moreover have "fst (addRandomTile b u1 u2) ! i ! j = b ! i ! j"
    if "i < length b" "(i, j) \<noteq> (r, c)" for i j
    using that by (auto simp add: eq nth_update_cell)
  ultimately show "\<exists>r c. snd (addRandomTile b u1 u2) = Some (r, c) \<and>
         r < length b \<and> c < length (b ! r) \<and> b ! r ! c = 0 \<and>
         (fst (addRandomTile b u1 u2) ! r ! c = 2 \<or> fst (addRandomTile b u1 u2) ! r ! c = 4) \<and>
         length (fst (addRandomTile b u1 u2)) = length b \<and>
         (\<forall>i j. i < length b \<longrightarrow>
            length (fst (addRandomTile b u1 u2) ! i) = length (b ! i) \<and>
            (j < length (b ! i) \<and> (i, j) \<noteq> (r, c) \<longrightarrow>
               fst (addRandomTile b u1 u2) ! i ! j = b ! i ! j))"
    using rc v eq by (intro exI [of _ r] exI [of _ c]) simp
qed

theorem addRandomTile_spec_witness:
  "addRandomTile [[2, 4], [8, 4]] (Abs_rnd 0) (Abs_rnd 0) = ([[2, 4], [8, 4]], None) \<and>
   addRandomTile [[2, 0], [0, 4]] (Abs_rnd (1 / 2)) (Abs_rnd (19 / 20)) = ([[2, 0], [4, 4]], Some (1, 0))"
  using addRandomTile_spec [of "[[2, 4], [8, 4]]" "Abs_rnd 0" "Abs_rnd 0"]
    addRandomTile_spec [of "[[2, 0], [0, 4]]" "Abs_rnd (1 / 2)" "Abs_rnd (19 / 20)"]
  by (simp add: addRandomTile_def getEmptyCells_example getEmptyCells_full_example Rep_Abs_rnd)

section \<open>A move that changes the board leaves an empty cell\<close>

lemma mergeScan_same_length:
  "length (fst (mergeScan xs)) = length xs \<Longrightarrow> fst (mergeScan xs) = xs"
proof (induction xs rule: mergeScan.induct)
  case (1 x y rest)
  show ?case
  proof (cases "x = y")
    case True
    have "length (fst (mergeScan rest)) \<le> length rest" by (rule length_mergeScan)
    with True 1(3) show ?thesis by (simp split: prod.splits)
  next
    case False
    with 1(2,3) show ?thesis by (simp split: prod.splits)
  qed
qed simp_all

lemma filter_same_length: "length (filter P xs) = length xs \<Longrightarrow> filter P xs = xs"
  by (metis filter_id_conv length_filter_less less_irrefl)

lemma reduceLine_changed_zero:
  assumes "fst (reduceLine line) \<noteq> line"
  shows "0 \<in> set (fst (reduceLine line))"
proof -
  define f where "f = filter (\<lambda>v. v \<noteq> 0) line"
  define m where "m = fst (mergeScan f)"
  have res: "fst (reduceLine line) = m @ replicate (length line - length m) 0"
    by (simp add: reduceLine_def f_def m_def case_prod_beta Let_def)
  have mf: "length m \<le> length f" unfolding m_def by (rule length_mergeScan)
  have fl: "length f \<le> length line" unfolding f_def by (rule length_filter_le)
  show ?thesis
  proof (cases "length m < length line")
    case True
    then show ?thesis by (simp add: res)
  next
    case False
    with mf fl have "length m = length f" "length f = length line" by simp_all
    then have "m = f" "f = line"
      unfolding m_def f_def by (simp_all add: mergeScan_same_length filter_same_length)
    with res assms show ?thesis by simp
  qed
qed

lemma map_changed_row:
  assumes "map f xs \<noteq> xs"
  shows "\<exists>x\<in>set xs. f x \<noteq> x"
proof (rule ccontr)
  assume "\<not> (\<exists>x\<in>set xs. f x \<noteq> x)"
  then have "map f xs = xs" by (intro map_idI) simp
  with assms show False by simp
qed

lemma member_cell:
  assumes "\<exists>row\<in>set g. x \<in> set row"
  shows "\<exists>r c. r < length g \<and> c < length (g ! r) \<and> g ! r ! c = x"
proof -
  from assms obtain row where row: "row \<in> set g" "x \<in> set row" by blast
  from row(1) obtain r where r: "r < length g" "g ! r = row" by (auto simp: in_set_conv_nth)
  from row(2) obtain c where c: "c < length row" "row ! c = x" by (auto simp: in_set_conv_nth)
  from r c show ?thesis by blast
qed

lemma map_changed_zero:
  assumes "map (\<lambda>row. fst (reduceLine row)) b \<noteq> b"
  shows "\<exists>row\<in>set (map (\<lambda>row. fst (reduceLine row)) b). 0 \<in> set row"
proof -
  from map_changed_row [OF assms] obtain row
    where "row \<in> set b" "fst (reduceLine row) \<noteq> row" by blast
  then show ?thesis using reduceLine_changed_zero by auto
qed

lemma moveLeft_changed_zero:
  "fst (moveLeft b) \<noteq> b \<Longrightarrow> \<exists>row\<in>set (fst (moveLeft b)). 0 \<in> set row"
  using map_changed_zero [of b] by (simp add: moveLeft_map)

lemma moveRight_changed_zero:
  assumes "fst (moveRight b) \<noteq> b"
  shows "\<exists>row\<in>set (fst (moveRight b)). 0 \<in> set row"
proof -
  from assms have "map (\<lambda>row. rev (fst (reduceLine (rev row)))) b \<noteq> b"
    by (simp add: moveRight_map)
  from map_changed_row [OF this] obtain row
    where row: "row \<in> set b" "rev (fst (reduceLine (rev row))) \<noteq> row" by blast
  then have "fst (reduceLine (rev row)) \<noteq> rev row" by auto
  then have "0 \<in> set (rev (fst (reduceLine (rev row))))"
    using reduceLine_changed_zero by simp
  with row(1) show ?thesis unfolding moveRight_map fst_conv by auto
qed

lemma rotateClockwise_member:
  assumes "square N g" "\<exists>row\<in>set g. x \<in> set row"
  shows "\<exists>row\<in>set (rotateClockwise g). x \<in> set row"
proof -
  have len: "length g = N" using assms(1) by (rule square_length)
  from member_cell [OF assms(2)] obtain r c
    where rc: "r < N" "c < length (g ! r)" "g ! r ! c = x"
    unfolding len by blast
  then have c: "c < N" using square_row [OF assms(1)] by simp
  from rc(1) have r': "N - 1 - r < N" "N - 1 - (N - 1 - r) = r" by arith+
  have "rotateClockwise g ! c ! (N - 1 - r) = x"
    using c r' rc(3) by (simp add: cell_rotateClockwise len)
  moreover have "length (rotateClockwise g ! c) = N"
    using c square_row [OF square_rotateClockwise [OF len]] by simp
  moreover have "rotateClockwise g ! c \<in> set (rotateClockwise g)"
    using c by (simp add: length_rotateClockwise len)
  ultimately show ?thesis using r'(1) nth_mem [of "N - 1 - r" "rotateClockwise g ! c"] by auto
qed

lemma rotateCounterClockwise_member:
  assumes "square N g" "\<exists>row\<in>set g. x \<in> set row"
  shows "\<exists>row\<in>set (rotateCounterClockwise g). x \<in> set row"
proof -
  have len: "length g = N" using assms(1) by (rule square_length)
  from member_cell [OF assms(2)] obtain r c
    where rc: "r < N" "c < length (g ! r)" "g ! r ! c = x"
    unfolding len by blast
  then have c: "c < N" using square_row [OF assms(1)] by simp
  from c have c': "N - 1 - c < N" "N - 1 - (N - 1 - c) = c" by arith+
  have "rotateCounterClockwise g ! (N - 1 - c) ! r = x"
    using rc(1) c' rc(3) by (simp add: cell_rotateCounterClockwise len)
  moreover have "length (rotateCounterClockwise g ! (N - 1 - c)) = N"
    using c' square_row [OF square_rotateCounterClockwise [OF len]] by simp
  moreover have "rotateCounterClockwise g ! (N - 1 - c) \<in> set (rotateCounterClockwise g)"
    using c' by (simp add: length_rotateCounterClockwise len)
  ultimately show ?thesis
    using rc(1) nth_mem [of r "rotateCounterClockwise g ! (N - 1 - c)"] by auto
qed

lemma moveUp_changed_zero:
  assumes "square N b" "moveUp b = Some (nb, delta)" "nb \<noteq> b"
  shows "\<exists>row\<in>set nb. 0 \<in> set row"
proof -
  let ?M = "map (\<lambda>row. fst (reduceLine row)) (rotateCounterClockwise b)"
  have len: "length b = N" using assms(1) by (rule square_length)
  have nb: "nb = rotateClockwise ?M" using assms(2) by (simp add: moveUp_square [OF assms(1)])
  have sq: "square N ?M"
    using len by (intro square_map_reduceLine square_rotateCounterClockwise)
  have "?M \<noteq> rotateCounterClockwise b"
    using assms(3) nb rotateClockwise_rotateCounterClockwise [OF assms(1)] by auto
  then have "\<exists>row\<in>set ?M. 0 \<in> set row" by (rule map_changed_zero)
  with sq show ?thesis unfolding nb by (rule rotateClockwise_member)
qed

lemma moveDown_changed_zero:
  assumes "square N b" "moveDown b = Some (nb, delta)" "nb \<noteq> b"
  shows "\<exists>row\<in>set nb. 0 \<in> set row"
proof -
  let ?M = "map (\<lambda>row. fst (reduceLine row)) (rotateClockwise b)"
  have len: "length b = N" using assms(1) by (rule square_length)
  have nb: "nb = rotateCounterClockwise ?M"
    using assms(2) by (simp add: moveDown_square [OF assms(1)])
  have sq: "square N ?M"
    using len by (intro square_map_reduceLine square_rotateClockwise)
  have "?M \<noteq> rotateClockwise b"
    using assms(3) nb rotateCounterClockwise_rotateClockwise [OF assms(1)] by auto
  then have "\<exists>row\<in>set ?M. 0 \<in> set row" by (rule map_changed_zero)
  with sq show ?thesis unfolding nb by (rule rotateCounterClockwise_member)
qed

lemma moveFunc_total:
  assumes "square N b"
  shows "\<exists>nb delta. moveFunc k b = Some (nb, delta)"
  by (cases k) (simp_all add: moveUp_square [OF assms] moveDown_square [OF assms] prod_eq_iff)

lemma moveFunc_changed_zero:
  assumes "square N b" "moveFunc k b = Some (nb, delta)" "nb \<noteq> b"
  shows "\<exists>row\<in>set nb. 0 \<in> set row"
proof (cases k)
  case ArrowUp
  with assms show ?thesis using moveUp_changed_zero by simp
next
  case ArrowDown
  with assms show ?thesis using moveDown_changed_zero by simp
next
  case ArrowLeft
  with assms(2,3) show ?thesis using moveLeft_changed_zero [of b] by auto
next
  case ArrowRight
  with assms(2,3) show ?thesis using moveRight_changed_zero [of b] by auto
qed

lemma addRandomTile_coords:
  assumes "\<exists>row\<in>set b. 0 \<in> set row"
  shows "\<exists>r c. snd (addRandomTile b u1 u2) = Some (r, c)"
proof -
  from assms have "getEmptyCells b \<noteq> []" by (simp add: getEmptyCells_Nil_iff)
  then show ?thesis using addRandomTile_spawn [of b u1 u2] by force
qed

lemma moveUp_example: "moveUp [[2, 0], [2, 4]] = Some ([[4, 4], [0, 0]], 4)"
  by code_simp
lemma getEmptyCells_moved_example: "getEmptyCells [[4, 4], [0, 0]] = [(1, 0), (1, 1)]"
  by code_simp
lemma areBoardsEqual_example: "\<not> areBoardsEqual [[2, 0], [2, 4]] [[4, 4], [0, 0]]"
  by code_simp

text \<open>
  Claim C10. For every square board and every direction the move has a result, and if
  the result board is not cell-for-cell equal to the input board (the test of
  \<open>handleMove\<close>), it has at least one empty cell; so the \<open>addRandomTile\<close> that \<open>handleMove\<close>
  calls on it right after an accepted move returns a coordinate, never \<open>null\<close>, whatever
  the draws are.
\<close>

theorem accepted_move_leaves_empty_cell:
  assumes "square N b"
  shows "\<exists>nb delta. moveFunc k b = Some (nb, delta) \<and>
           (\<not> areBoardsEqual b nb \<longrightarrow>
              (\<exists>row\<in>set nb. 0 \<in> set row) \<and>
              (\<exists>r c. snd (addRandomTile nb u1 u2) = Some (r, c)))"
proof -
  from moveFunc_total [OF assms] obtain nb delta where m: "moveFunc k b = Some (nb, delta)"
    by blast
  have "\<exists>row\<in>set nb. 0 \<in> set row" if "\<not> areBoardsEqual b nb"
    using that moveFunc_changed_zero [OF assms m] by (auto simp: areBoardsEqual_iff)
  then show ?thesis using m addRandomTile_coords by blast
qed

theorem accepted_move_leaves_empty_cell_witness:
  "square 2 [[2::int, 0], [2, 4]] \<and>
   moveFunc ArrowUp [[2, 0], [2, 4]] = Some ([[4, 4], [0, 0]], 4) \<and>
   \<not> areBoardsEqual [[2, 0], [2, 4]] [[4, 4], [0, 0]] \<and>
   addRandomTile [[4, 4], [0, 0]] (Abs_rnd 0) (Abs_rnd 0) = ([[4, 4], [2, 0]], Some (1, 0))"
  using accepted_move_leaves_empty_cell [of 2 "[[2, 0], [2, 4]]" ArrowUp "Abs_rnd 0" "Abs_rnd 0"]
  by (simp add: square_def moveUp_example getEmptyCells_moved_example
      areBoardsEqual_example addRandomTile_def Rep_Abs_rnd)

section \<open>Session orchestration\<close>

lemma handleMove_over: "isGameOver s \<Longrightarrow> handleMove moveFn u1 u2 s = Some s"
  by (simp add: handleMove_def)

lemma handleMove_noop:
  "moveFn (board s) = Some (board s, moveScore) \<Longrightarrow> handleMove moveFn u1 u2 s = Some s"
  by (simp add: handleMove_def areBoardsEqual_iff)

lemma handleMove_accepted:
  assumes "\<not> isGameOver s" "moveFn (board s) = Some (newBoard, moveScore)" "newBoard \<noteq> board s"
  shows "handleMove moveFn u1 u2 s =
     Some (s\<lparr>board := fst (addRandomTile newBoard u1 u2),
             score := score s + moveScore,
             hasWon := (checkWin (fst (addRandomTile newBoard u1 u2)) \<or> hasWon s),
             isGameOver := (checkWin (fst (addRandomTile newBoard u1 u2)) \<or>
                            checkGameOver (fst (addRandomTile newBoard u1 u2)))\<rparr>)"
  using assms by (auto simp: handleMove_def areBoardsEqual_iff Let_def)

lemma moveLeft_noop_example: "moveLeft [[2, 0], [4, 0]] = ([[2, 0], [4, 0]], 0)"
  by code_simp

text \<open>
  Claim C4. For every session and every direction, if the board that the move computes
  is cell-for-cell equal to the current board, then \<open>areBoardsEqual\<close> holds and
  \<open>handleMove\<close> leaves the session exactly as it was: no tile is spawned, and the board,
  the score, the win flag and the game-over flag keep their values.
\<close>

theorem noop_move_ignored:
  assumes "moveFunc k (board s) = Some (candidate, delta)" "candidate = board s"
  shows "areBoardsEqual (board s) candidate \<and> handleMove (moveFunc k) u1 u2 s = Some s"
  using assms by (simp add: areBoardsEqual_iff handleMove_noop)

theorem noop_move_ignored_witness:
  "moveFunc ArrowLeft [[2, 0], [4, 0]] = Some ([[2, 0], [4, 0]], 0) \<and>
   handleMove (moveFunc ArrowLeft) (Abs_rnd 0) (Abs_rnd 0)
     \<lparr>board = [[2, 0], [4, 0]], score = 6, highScore = 9, isGameOver = False, hasWon = False\<rparr> =
   Some \<lparr>board = [[2, 0], [4, 0]], score = 6, highScore = 9, isGameOver = False, hasWon = False\<rparr>"
  using noop_move_ignored [of ArrowLeft
      "\<lparr>board = [[2, 0], [4, 0]], score = 6, highScore = 9, isGameOver = False, hasWon = False\<rparr>"
      "[[2, 0], [4, 0]]" 0 "Abs_rnd 0" "Abs_rnd 0"]
  by (simp add: moveLeft_noop_example)

lemma win_moveLeft: "moveLeft [[1024, 1024], [0, 0]] = ([[2048, 0], [0, 0]], 2048)"
  by code_simp
lemma win_getEmptyCells: "getEmptyCells [[2048, 0], [0, 0]] = [(0, 1), (1, 0), (1, 1)]"
  by code_simp
lemma win_checkWin: "checkWin [[2048, 2], [0, 0]]"
  by code_simp
lemma win_not_checkGameOver: "\<not> checkGameOver [[2048, 2], [0, 0]]"
  by code_simp
lemma win_moveDown: "moveDown [[2048, 2], [0, 0]] = Some ([[0, 0], [2048, 2]], 0)"
  by code_simp
lemma win_move_changes: "\<not> areBoardsEqual [[1024, 1024], [0, 0]] [[2048, 0], [0, 0]]"
  by code_simp
lemma win_next_move_changes: "\<not> areBoardsEqual [[2048, 2], [0, 0]] [[0, 0], [2048, 2]]"
  by code_simp

lemma win_spawn:
  "addRandomTile [[2048, 0], [0, 0]] (Abs_rnd 0) (Abs_rnd 0) = ([[2048, 2], [0, 0]], Some (0, 1))"
  by (simp add: addRandomTile_def win_getEmptyCells Rep_Abs_rnd)

text \<open>
  Claim C1, as the code has it. For every session that is not over and every accepted
  move, \<open>handleMove\<close> commits the post-spawn board, and the session is over afterwards
  exactly when that board contains 2048 or is terminal. When the post-spawn board
  contains 2048 the win flag and the game-over flag are both set, and every further
  move input is ignored: it leaves the session as it is.
\<close>

theorem win_ends_session:
  assumes "\<not> isGameOver s" "moveFunc k (board s) = Some (newBoard, moveScore)"
    "\<not> areBoardsEqual (board s) newBoard"
  shows "\<exists>s'. handleMove (moveFunc k) u1 u2 s = Some s' \<and>
           board s' = fst (addRandomTile newBoard u1 u2) \<and>
           (isGameOver s' \<longleftrightarrow> checkWin (board s') \<or> checkGameOver (board s')) \<and>
           (checkWin (board s') \<longrightarrow>
              hasWon s' \<and> isGameOver s' \<and> handleMove (moveFunc k') u1' u2' s' = Some s')"
  using assms by (simp add: handleMove_accepted areBoardsEqual_iff handleMove_over)

theorem win_ends_session_witness:
  "handleMove (moveFunc ArrowLeft) (Abs_rnd 0) (Abs_rnd 0)
     \<lparr>board = [[1024, 1024], [0, 0]], score = 0, highScore = 0,
      isGameOver = False, hasWon = False\<rparr> =
   Some \<lparr>board = [[2048, 2], [0, 0]], score = 2048, highScore = 0,
         isGameOver = True, hasWon = True\<rparr> \<and>
   handleMove (moveFunc ArrowDown) (Abs_rnd 0) (Abs_rnd 0)
     \<lparr>board = [[2048, 2], [0, 0]], score = 2048, highScore = 0,
      isGameOver = True, hasWon = True\<rparr> =
   Some \<lparr>board = [[2048, 2], [0, 0]], score = 2048, highScore = 0,
         isGameOver = True, hasWon = True\<rparr>"
  using win_ends_session [of
      "\<lparr>board = [[1024, 1024], [0, 0]], score = 0, highScore = 0,
        isGameOver = False, hasWon = False\<rparr>"
      ArrowLeft "[[2048, 0], [0, 0]]" 2048 "Abs_rnd 0" "Abs_rnd 0" ArrowDown "Abs_rnd 0" "Abs_rnd 0"]
  by (simp add: handleMove_def win_moveLeft win_checkWin win_not_checkGameOver win_moveDown win_move_changes win_next_move_changes win_spawn)

text \<open>
  Claim C1, as stated, fails. The session below is not over, the left move is accepted
  and its post-spawn board \<open>[[2048, 2], [0, 0]]\<close> contains 2048 and is not terminal (the
  down move would change it), yet the session is over afterwards and the down input is
  ignored.
\<close>

theorem win_sets_game_over_counterexample:
  "\<not> isGameOver \<lparr>board = [[1024, 1024], [0, 0]], score = 0, highScore = 0,
                    isGameOver = False, hasWon = False\<rparr> \<and>
   moveFunc ArrowLeft [[1024, 1024], [0, 0]] = Some ([[2048, 0], [0, 0]], 2048) \<and>
   \<not> areBoardsEqual [[1024, 1024], [0, 0]] [[2048, 0], [0, 0]] \<and>
   handleMove (moveFunc ArrowLeft) (Abs_rnd 0) (Abs_rnd 0)
     \<lparr>board = [[1024, 1024], [0, 0]], score = 0, highScore = 0,
      isGameOver = False, hasWon = False\<rparr> =
   Some \<lparr>board = [[2048, 2], [0, 0]], score = 2048, highScore = 0,
         isGameOver = True, hasWon = True\<rparr> \<and>
   checkWin [[2048, 2], [0, 0]] \<and>
   \<not> checkGameOver [[2048, 2], [0, 0]] \<and>
   moveFunc ArrowDown [[2048, 2], [0, 0]] = Some ([[0, 0], [2048, 2]], 0) \<and>
   \<not> areBoardsEqual [[2048, 2], [0, 0]] [[0, 0], [2048, 2]] \<and>
   handleMove (moveFunc ArrowDown) (Abs_rnd 0) (Abs_rnd 0)
     \<lparr>board = [[2048, 2], [0, 0]], score = 2048, highScore = 0,
      isGameOver = True, hasWon = True\<rparr> =
   Some \<lparr>board = [[2048, 2], [0, 0]], score = 2048, highScore = 0,
         isGameOver = True, hasWon = True\<rparr>"
  by (simp add: handleMove_def win_moveLeft win_checkWin win_not_checkGameOver win_moveDown win_move_changes win_next_move_changes win_spawn)

lemma square_createEmptyBoard: "square n (createEmptyBoard n)"
  by (simp add: square_def createEmptyBoard_def list_all_iff)

lemma square_update_cell: "square N b \<Longrightarrow> square N (b[r := (b ! r)[c := v]])"
  by (rule squareI) (simp_all add: square_length square_row length_update_row)

lemma square_addRandomTile:
  assumes "square N b"
  shows "square N (fst (addRandomTile b u1 u2))"
proof (cases "getEmptyCells b = []")
  case True
  with assms show ?thesis by (simp add: addRandomTile_full)
next
  case False
  from addRandomTile_spawn [OF False, of u1 u2] obtain r c v
    where "addRandomTile b u1 u2 = (b[r := (b ! r)[c := v]], Some (r, c))" by blast
  with assms show ?thesis by (simp add: square_update_cell)
qed

lemma square_initBoard: "square n (fst (initBoard n u1 u2 u3 u4))"
proof -
  have 1: "square n (fst (addRandomTile (createEmptyBoard n) u1 u2))"
    by (intro square_addRandomTile square_createEmptyBoard)
  then have 2: "square n (fst (addRandomTile (fst (addRandomTile (createEmptyBoard n) u1 u2)) u3 u4))"
    by (rule square_addRandomTile)
  have 3: "square n (fst (addRandomTile (createEmptyBoard n) u3 u4))"
    by (intro square_addRandomTile square_createEmptyBoard)
  show ?thesis
    using 1 2 3 square_createEmptyBoard [of n]
    by (simp add: initBoard_def Let_def split: option.splits)
qed

lemma square_moveFunc:
  assumes "square N b" "moveFunc k b = Some (nb, delta)"
  shows "square N nb"
proof -
  have len: "length b = N" using assms(1) by (rule square_length)
  show ?thesis
  proof (cases k)
    case ArrowUp
    have "square N (rotateClockwise (map (\<lambda>row. fst (reduceLine row)) (rotateCounterClockwise b)))"
      by (rule square_rotateClockwise) (simp add: length_rotateCounterClockwise len)
    with assms ArrowUp show ?thesis by (simp add: moveUp_square [OF assms(1)])
  next
    case ArrowDown
    have "square N (rotateCounterClockwise (map (\<lambda>row. fst (reduceLine row)) (rotateClockwise b)))"
      by (rule square_rotateCounterClockwise) (simp add: length_rotateClockwise len)
    with assms ArrowDown show ?thesis by (simp add: moveDown_square [OF assms(1)])
  next
    case ArrowLeft
    with assms(2) have "nb = map (\<lambda>row. fst (reduceLine row)) b" by (simp add: moveLeft_map)
    with assms(1) show ?thesis by (simp add: square_map_reduceLine)
  next
    case ArrowRight
    with assms(2) have "nb = map (\<lambda>row. rev (fst (reduceLine (rev row)))) b"
      by (simp add: moveRight_map)
    with assms(1) show ?thesis by (simp add: square_def list_all_iff length_reduceLine)
  qed
qed

text \<open>One step: what it returns, that the board stays square, and what it adds to the score.\<close>

lemma handleMove_step:
  assumes "square N (board s)"
  shows "\<exists>s'. handleMove (moveFunc k) u1 u2 s = Some s' \<and> square N (board s') \<and>
           score s' = score s + sum_list (acceptedDeltas s [(k, u1, u2)])"
proof -
  from moveFunc_total [OF assms] obtain nb delta where m: "moveFunc k (board s) = Some (nb, delta)"
    by blast
  have sq: "square N nb" using assms m by (rule square_moveFunc)
  show ?thesis
  proof (cases "isGameOver s")
    case True
    with assms show ?thesis by (simp add: handleMove_over)
  next
    case False
    show ?thesis
    proof (cases "nb = board s")
      case True
      with m have "handleMove (moveFunc k) u1 u2 s = Some s" by (simp add: handleMove_noop)
      with assms m True False show ?thesis by simp
    next
      case ne: False
      have "handleMove (moveFunc k) u1 u2 s =
         Some (s\<lparr>board := fst (addRandomTile nb u1 u2),
             score := score s + delta,
             hasWon := (checkWin (fst (addRandomTile nb u1 u2)) \<or> hasWon s),
             isGameOver := (checkWin (fst (addRandomTile nb u1 u2)) \<or>
                            checkGameOver (fst (addRandomTile nb u1 u2)))\<rparr>)"
        using False m ne by (rule handleMove_accepted)
      with square_addRandomTile [OF sq, of u1 u2] show ?thesis using m ne False by simp
    qed
  qed
qed

lemma run_score:
  assumes "square N (board s)"
  shows "\<exists>s'. run s inputs = Some s' \<and> square N (board s') \<and>
           score s' = score s + sum_list (acceptedDeltas s inputs)"
  using assms
proof (induction inputs arbitrary: s)
  case Nil
  then show ?case by simp
next
  case (Cons input inputs)
  obtain k u1 u2 where input: "input = (k, u1, u2)" by (cases input)
  from handleMove_step [OF Cons.prems, of k u1 u2] obtain s1
    where s1: "handleMove (moveFunc k) u1 u2 s = Some s1" "square N (board s1)"
      "score s1 = score s + sum_list (acceptedDeltas s [(k, u1, u2)])" by blast
  from Cons.IH [OF s1(2)] obtain s'
    where s': "run s1 inputs = Some s'" "square N (board s')"
      "score s' = score s1 + sum_list (acceptedDeltas s1 inputs)" by blast
  from s1 s' show ?case by (simp add: input)
qed

lemma run_ev_boards:
  "createEmptyBoard 2 = [[0, 0], [0, 0]]"
  "getEmptyCells [[0, 0], [0, 0]] = [(0, 0), (0, 1), (1, 0), (1, 1)]"
  "getEmptyCells [[2, 0], [0, 0]] = [(0, 1), (1, 0), (1, 1)]"
  "getEmptyCells [[4, 0], [0, 0]] = [(0, 1), (1, 0), (1, 1)]"
  "getEmptyCells [[0, 0], [4, 2]] = [(0, 0), (0, 1)]"
  by code_simp+

lemma run_ev_moves:
  "moveFunc ArrowLeft [[2, 2], [0, 0]] = Some ([[4, 0], [0, 0]], 4)"
  "moveFunc ArrowLeft [[4, 2], [0, 0]] = Some ([[4, 2], [0, 0]], 0)"
  "moveFunc ArrowDown [[4, 2], [0, 0]] = Some ([[0, 0], [4, 2]], 0)"
  by code_simp+

lemma run_ev_checks:
  "\<not> checkWin [[4, 2], [0, 0]]" "\<not> checkGameOver [[4, 2], [0, 0]]"
  "\<not> checkWin [[2, 0], [4, 2]]" "\<not> checkGameOver [[2, 0], [4, 2]]"
  by code_simp+

lemma run_ev_init:
  "initialSession 2 (Abs_rnd 0) (Abs_rnd 0) (Abs_rnd 0) (Abs_rnd 0) =
     \<lparr>board = [[2, 2], [0, 0]], score = 0, highScore = 0, isGameOver = False, hasWon = False\<rparr>"
  by (simp add: initialSession_def initBoard_def addRandomTile_def run_ev_boards Rep_Abs_rnd)

lemma run_ev_steps:
  "handleMove (moveFunc ArrowLeft) (Abs_rnd 0) (Abs_rnd 0)
     \<lparr>board = [[2, 2], [0, 0]], score = 0, highScore = 0, isGameOver = False, hasWon = False\<rparr> =
   Some \<lparr>board = [[4, 2], [0, 0]], score = 4, highScore = 0, isGameOver = False, hasWon = False\<rparr>"
  "handleMove (moveFunc ArrowLeft) (Abs_rnd 0) (Abs_rnd 0)
     \<lparr>board = [[4, 2], [0, 0]], score = 4, highScore = 0, isGameOver = False, hasWon = False\<rparr> =
   Some \<lparr>board = [[4, 2], [0, 0]], score = 4, highScore = 0, isGameOver = False, hasWon = False\<rparr>"
  "handleMove (moveFunc ArrowDown) (Abs_rnd 0) (Abs_rnd 0)
     \<lparr>board = [[4, 2], [0, 0]], score = 4, highScore = 0, isGameOver = False, hasWon = False\<rparr> =
   Some \<lparr>board = [[2, 0], [4, 2]], score = 4, highScore = 0, isGameOver = False, hasWon = False\<rparr>"
  by (simp_all add: handleMove_def addRandomTile_def areBoardsEqual_iff run_ev_boards run_ev_moves
      run_ev_checks Rep_Abs_rnd del: moveFunc.simps)

text \<open>
  Claim C8. The initial session has score 0, and after any sequence of move inputs,
  whatever the draws of the spawns are, the score is the sum of the score deltas of the
  accepted moves of the sequence: each is counted once, and a spawned tile counts nothing.
\<close>

theorem score_is_sum_of_accepted_deltas:
  "score (initialSession boardSize u1 u2 u3 u4) = 0 \<and>
   (\<exists>s'. run (initialSession boardSize u1 u2 u3 u4) inputs = Some s' \<and>
      score s' = sum_list (acceptedDeltas (initialSession boardSize u1 u2 u3 u4) inputs))"
proof -
  have "square boardSize (board (initialSession boardSize u1 u2 u3 u4))"
    by (simp add: initialSession_def square_initBoard)
  from run_score [OF this, of inputs] show ?thesis
    by (auto simp: initialSession_def)
qed

theorem score_is_sum_of_accepted_deltas_witness:
  "run (initialSession 2 (Abs_rnd 0) (Abs_rnd 0) (Abs_rnd 0) (Abs_rnd 0))
     [(ArrowLeft, Abs_rnd 0, Abs_rnd 0), (ArrowLeft, Abs_rnd 0, Abs_rnd 0),
      (ArrowDown, Abs_rnd 0, Abs_rnd 0)] =
   Some \<lparr>board = [[2, 0], [4, 2]], score = 4, highScore = 0, isGameOver = False, hasWon = False\<rparr> \<and>
   acceptedDeltas (initialSession 2 (Abs_rnd 0) (Abs_rnd 0) (Abs_rnd 0) (Abs_rnd 0))
     [(ArrowLeft, Abs_rnd 0, Abs_rnd 0), (ArrowLeft, Abs_rnd 0, Abs_rnd 0),
      (ArrowDown, Abs_rnd 0, Abs_rnd 0)] = [4, 0]"
  using score_is_sum_of_accepted_deltas [of 2 "Abs_rnd 0" "Abs_rnd 0" "Abs_rnd 0" "Abs_rnd 0"
      "[(ArrowLeft, Abs_rnd 0, Abs_rnd 0), (ArrowLeft, Abs_rnd 0, Abs_rnd 0),
        (ArrowDown, Abs_rnd 0, Abs_rnd 0)]"]
  by (simp add: run_ev_init run_ev_steps run_ev_moves del: moveFunc.simps)

end
